theory Spec2Isabelle
  imports Main "HOL-Library.Sublist"
begin

section \<open>Python strings\<close>

text \<open>
  Strings are \<^typ>\<open>string\<close>. Only three string operations of the source matter:
  \<^verbatim>\<open>str.strip()\<close>, \<^verbatim>\<open>str.lower()\<close> and \<^verbatim>\<open>"\n".join(...)\<close>. Lowercasing is the
  ASCII one: the only use of \<^verbatim>\<open>lower()\<close> is the comparison with the words
  \<^verbatim>\<open>exit\<close>, \<^verbatim>\<open>quit\<close>, \<^verbatim>\<open>done\<close>, and no character outside ASCII lowercases to
  one of their letters.
\<close>

definition isspace :: "char \<Rightarrow> bool" where
  "isspace c = (c \<in> set [CHR 0x20, CHR 0x09, CHR 0x0A, CHR 0x0B, CHR 0x0C, CHR 0x0D,
                          CHR 0x1C, CHR 0x1D, CHR 0x1E, CHR 0x1F])"

definition strip :: "string \<Rightarrow> string" where
  "strip s = rev (dropWhile isspace (rev (dropWhile isspace s)))"

definition lower_char :: "char \<Rightarrow> char" where
  "lower_char c =
     (case map_of (zip ''ABCDEFGHIJKLMNOPQRSTUVWXYZ'' ''abcdefghijklmnopqrstuvwxyz'') c of
        Some d \<Rightarrow> d
      | None \<Rightarrow> c)"

definition lower :: "string \<Rightarrow> string" where
  "lower s = map lower_char s"

fun join :: "string \<Rightarrow> string list \<Rightarrow> string" where
  "join sep [] = []"
| "join sep [x] = x"
| "join sep (x # y # ys) = x @ sep @ join sep (y # ys)"

definition digit_char :: "nat \<Rightarrow> char" where
  "digit_char d = ''0123456789'' ! d"

function str_nat :: "nat \<Rightarrow> string" where
  "str_nat n = (if n < 10 then [digit_char n] else str_nat (n div 10) @ [digit_char (n mod 10)])"
  by pat_completeness auto
termination
  by (relation "measure (\<lambda>n. n)") auto

section \<open>colorama\<close>

definition Fore_RED :: string where "Fore_RED = CHR 0x1B # ''[31m''"
definition Fore_GREEN :: string where "Fore_GREEN = CHR 0x1B # ''[32m''"
definition Fore_YELLOW :: string where "Fore_YELLOW = CHR 0x1B # ''[33m''"
definition Fore_BLUE :: string where "Fore_BLUE = CHR 0x1B # ''[34m''"
definition Fore_MAGENTA :: string where "Fore_MAGENTA = CHR 0x1B # ''[35m''"
definition Fore_CYAN :: string where "Fore_CYAN = CHR 0x1B # ''[36m''"
definition Style_RESET_ALL :: string where "Style_RESET_ALL = CHR 0x1B # ''[0m''"

section \<open>The world the program runs in\<close>

text \<open>
  What a call into the environment can raise: a keyboard interrupt, or an exception
  of class \<^verbatim>\<open>Exception\<close>, carried with its message \<^verbatim>\<open>str(e)\<close>.
\<close>

datatype exn = KeyboardInterrupt | Exception string

type_synonym 'a result = "exn + 'a"

datatype request = SendMessage string | GenerateContent string

text \<open>
  \<^item> \<open>environ\<close>: the process environment after \<^verbatim>\<open>load_dotenv()\<close>;
  \<^item> \<open>stdin\<close>: what the successive calls of \<^verbatim>\<open>input()\<close> give, a line or an
    exception; at the end of the input \<^verbatim>\<open>input()\<close> raises \<^verbatim>\<open>EOFError\<close>;
  \<^item> \<open>stdout\<close>: one entry per call of \<^verbatim>\<open>print\<close> and per prompt of \<^verbatim>\<open>input\<close>;
  \<^item> \<open>chat_service\<close>: the answer of the remote service to
    \<^verbatim>\<open>chat.send_message\<close>, as the text of the response or the exception raised,
    given all the messages sent in the chat session so far, the new one last;
  \<^item> \<open>generate_service\<close>: the same for \<^verbatim>\<open>model.generate_content\<close>;
  \<^item> \<open>network\<close>: the requests sent to the remote service, in order;
  \<^item> \<open>open_fault\<close>, \<open>write_fault\<close>: what opening a file for writing, and
    writing a text to it, raise, if anything;
  \<^item> \<open>files\<close>: the text files of the working directory;
  \<^item> \<open>api_key\<close>: the key given to \<^verbatim>\<open>genai.configure\<close>.
\<close>

record world =
  environ :: "string \<Rightarrow> string option"
  stdin :: "string result list"
  stdout :: "string list"
  chat_service :: "string list \<Rightarrow> string result"
  generate_service :: "string \<Rightarrow> string result"
  network :: "request list"
  open_fault :: "string \<Rightarrow> exn option"
  write_fault :: "string \<Rightarrow> string \<Rightarrow> exn option"
  files :: "string \<Rightarrow> string option"
  api_key :: "string option"

definition print :: "string \<Rightarrow> world \<Rightarrow> world" where
  "print s w = w\<lparr>stdout := stdout w @ [s]\<rparr>"

definition input :: "string \<Rightarrow> world \<Rightarrow> string result \<times> world" where
  "input prompt w =
     (let w1 = print prompt w in
      case stdin w1 of
        [] \<Rightarrow> (Inl (Exception ''EOF when reading a line''), w1)
      | r # rest \<Rightarrow> (r, w1\<lparr>stdin := rest\<rparr>))"

definition getenv :: "string \<Rightarrow> world \<Rightarrow> string option" where
  "getenv name w = environ w name"

definition genai_configure :: "string \<Rightarrow> world \<Rightarrow> world" where
  "genai_configure k w = w\<lparr>api_key := Some k\<rparr>"

definition generate_content :: "string \<Rightarrow> world \<Rightarrow> string result \<times> world" where
  "generate_content prompt w =
     (generate_service w prompt, w\<lparr>network := network w @ [GenerateContent prompt]\<rparr>)"

definition file_open :: "string \<Rightarrow> world \<Rightarrow> unit result \<times> world" where
  "file_open filename w =
     (case open_fault w filename of
        Some e \<Rightarrow> (Inl e, w)
      | None \<Rightarrow> (Inr (), w\<lparr>files := (files w)(filename \<mapsto> [])\<rparr>))"

definition file_write :: "string \<Rightarrow> string \<Rightarrow> world \<Rightarrow> unit result \<times> world" where
  "file_write filename content w =
     (case write_fault w filename content of
        Some e \<Rightarrow> (Inl e, w)
      | None \<Rightarrow>
          (Inr (), w\<lparr>files := (files w)(filename \<mapsto> (case files w filename of
                                                          None \<Rightarrow> content
                                                        | Some old \<Rightarrow> old @ content))\<rparr>))"

section \<open>configure_genai\<close>

text \<open>The result \<open>Inl c\<close> is \<^verbatim>\<open>sys.exit(c)\<close>.\<close>

definition configure_genai :: "world \<Rightarrow> (int + unit) \<times> world" where
  "configure_genai w =
     (case getenv ''GOOGLE_API_KEY'' w of
        None \<Rightarrow>
          (Inl 1,
           print (Fore_YELLOW @ ''Please set it in a .env file or export it.'')
             (print (Fore_RED @ ''Error: GOOGLE_API_KEY not found in environment variables.'') w))
      | Some k \<Rightarrow>
          if k = [] then
            (Inl 1,
             print (Fore_YELLOW @ ''Please set it in a .env file or export it.'')
               (print (Fore_RED @ ''Error: GOOGLE_API_KEY not found in environment variables.'') w))
          else (Inr (), genai_configure k w))"

section \<open>ProductInterviewAgent\<close>

text \<open>
  The field \<open>chat\<close> is the chat session: the messages sent in it so far. The remote
  model behind \<open>model\<close> and \<open>chat\<close> is the world's.
\<close>

record ProductInterviewAgent =
  model :: string
  chat :: "string list"
  conversation_history :: "string list"

definition init :: "string \<Rightarrow> ProductInterviewAgent" where
  "init model_name = \<lparr>model = model_name, chat = [], conversation_history = []\<rparr>"

definition send_message ::
  "string \<Rightarrow> ProductInterviewAgent \<Rightarrow> world \<Rightarrow> string result \<times> ProductInterviewAgent \<times> world" where
  "send_message prompt a w =
     (let sent = chat a @ [prompt] in
      (chat_service w sent, a\<lparr>chat := sent\<rparr>, w\<lparr>network := network w @ [SendMessage prompt]\<rparr>))"

definition append_history :: "string \<Rightarrow> ProductInterviewAgent \<Rightarrow> ProductInterviewAgent" where
  "append_history entry a = a\<lparr>conversation_history := conversation_history a @ [entry]\<rparr>"

definition system_instruction :: string where
  "system_instruction =
     ''You are an expert Product Manager using the 'Jobs to be Done' (JTBD) framework and '5 Whys' technique. '' @
     ''Your goal is to interview a user to uncover the underlying 'Job' they are hiring the product to do. '' @
     ''You must ask deep, probing 'Why' questions to get to the root cause. '' @
     ''Do not settle for superficial answers. '' @
     ''Start by asking about the product idea or problem. '' @
     ''Then, recursively ask 'Why' to understand the motivation, context, and desired outcome.''"

definition initial_question :: string where
  "initial_question = ''To start, what is the product idea or the problem you are trying to solve?''"

definition why_prompt :: "string \<Rightarrow> string" where
  "why_prompt user_input =
     ''The user just said: '' @ [CHR 0x27] @ user_input @ [CHR 0x27] @ ''. '' @
     ''Previous conversation context is implied. '' @
     ''Ask a specific 'Why' question to dig deeper into the user's motivation or the root problem. '' @
     ''Use the '5 Whys' technique. '' @
     ''Example: 'Why is that important to you?' or 'Why does this problem occur?' '' @
     ''Ensure the question relates to the 'Job to be Done'.''"

definition exit_keywords :: "string list" where
  "exit_keywords = [''exit'', ''quit'', ''done'']"

definition exit_requested :: "string \<Rightarrow> bool" where
  "exit_requested user_input = (lower user_input \<in> set exit_keywords)"

text \<open>The lines printed and the entries recorded by the interview.\<close>

definition agent_line :: "nat \<Rightarrow> string \<Rightarrow> string" where
  "agent_line i question =
     Fore_BLUE @ ''Agent ('' @ str_nat (i + 1) @ ''/5): '' @ Style_RESET_ALL @ question"

definition you_prompt :: string where
  "you_prompt = Fore_YELLOW @ ''You: '' @ Style_RESET_ALL"

definition system_entry :: "string \<Rightarrow> string" where
  "system_entry instruction = ''System: '' @ instruction"

definition agent_entry :: "string \<Rightarrow> string" where
  "agent_entry question = ''Agent: '' @ question"

definition user_entry :: "string \<Rightarrow> string" where
  "user_entry user_input = ''User: '' @ user_input"

definition ending_line :: string where
  "ending_line = Fore_MAGENTA @ ''Ending interview early...''"

text \<open>
  The loop \<^verbatim>\<open>for i in range(5)\<close>, as a recursion over the indices still to come;
  \<open>user_input\<close> is the loop-carried variable.
\<close>

fun interview_loop ::
  "nat list \<Rightarrow> string \<Rightarrow> ProductInterviewAgent \<Rightarrow> world \<Rightarrow>
     unit result \<times> ProductInterviewAgent \<times> world" where
  "interview_loop [] user_input a w = (Inr (), a, w)"
| "interview_loop (i # is) user_input a w =
     (case send_message (why_prompt user_input) a w of
        (Inl e, a1, w1) \<Rightarrow> (Inl e, a1, w1)
      | (Inr text, a1, w1) \<Rightarrow>
          (let question = strip text;
               w2 = print (agent_line i question) w1;
               a2 = append_history (agent_entry question) a1
           in case input you_prompt w2 of
                (Inl e, w3) \<Rightarrow> (Inl e, a2, w3)
              | (Inr user_input', w3) \<Rightarrow>
                  (let a3 = append_history (user_entry user_input') a2 in
                   if exit_requested user_input'
                   then (Inr (), a3, print ending_line w3)
                   else interview_loop is user_input' a3 w3)))"

definition start_interview ::
  "ProductInterviewAgent \<Rightarrow> world \<Rightarrow> unit result \<times> ProductInterviewAgent \<times> world" where
  "start_interview a w =
     (let w1 = print (Fore_CYAN @ ''\<newline>=== Gemini Product Manager Agent ==='') w;
          w2 = print (Fore_GREEN @ ''Hello! I'm here to help you define your product requirements.'') w1;
          w3 = print ''I'll ask you a few questions to understand the root problem better.\<newline>'' w2;
          a1 = append_history (system_entry system_instruction) a;
          w4 = print (Fore_BLUE @ ''Agent: '' @ Style_RESET_ALL @ initial_question) w3;
          a2 = append_history (agent_entry initial_question) a1
      in case input you_prompt w4 of
           (Inl e, w5) \<Rightarrow> (Inl e, a2, w5)
         | (Inr user_input, w5) \<Rightarrow>
             interview_loop [0..<5] user_input (append_history (user_entry user_input) a2) w5)"

definition prd_prompt :: "string \<Rightarrow> string" where
  "prd_prompt transcript =
     ''Based on the following interview transcript, write a comprehensive '' @
     ''Product Requirements Document (PRD) in Markdown format.\<newline>\<newline>'' @
     ''TRANSCRIPT:\<newline>'' @
     transcript @ ''\<newline>\<newline>'' @
     ''REQUIREMENTS:\<newline>'' @
     ''1. Title & Overview\<newline>'' @
     ''2. Problem Statement (Root Cause Analysis)\<newline>'' @
     ''3. Goals & Success Metrics\<newline>'' @
     ''4. User Personas\<newline>'' @
     ''5. User Stories\<newline>'' @
     ''6. Functional Requirements\<newline>'' @
     ''7. Non-functional Requirements\<newline>'' @
     ''8. Output strictly in Markdown.''"

definition generate_prd ::
  "ProductInterviewAgent \<Rightarrow> world \<Rightarrow> string result \<times> ProductInterviewAgent \<times> world" where
  "generate_prd a w =
     (let w1 = print (Fore_CYAN @
                 ''\<newline>Generating Product Requirements Document (PRD)... Please wait.'') w;
          transcript = join ''\<newline>'' (conversation_history a)
      in case generate_content (prd_prompt transcript) w1 of
           (r, w2) \<Rightarrow> (r, a, w2))"

text \<open>
  \<^verbatim>\<open>except Exception\<close> does not catch a keyboard interrupt, which leaves
  \<open>save_prd\<close>.
\<close>

definition save_prd_except ::
  "exn \<Rightarrow> ProductInterviewAgent \<Rightarrow> world \<Rightarrow> unit result \<times> ProductInterviewAgent \<times> world" where
  "save_prd_except e a w =
     (case e of
        Exception m \<Rightarrow> (Inr (), a, print (Fore_RED @ ''Error saving file: '' @ m) w)
      | KeyboardInterrupt \<Rightarrow> (Inl KeyboardInterrupt, a, w))"

definition save_prd ::
  "ProductInterviewAgent \<Rightarrow> string \<Rightarrow> string \<Rightarrow> world \<Rightarrow>
     unit result \<times> ProductInterviewAgent \<times> world" where
  "save_prd a content filename w =
     (case file_open filename w of
        (Inl e, w1) \<Rightarrow> save_prd_except e a w1
      | (Inr u, w1) \<Rightarrow>
          (case file_write filename content w1 of
             (Inl e, w2) \<Rightarrow> save_prd_except e a w2
           | (Inr v, w2) \<Rightarrow>
               (Inr (), a, print (Fore_GREEN @ ''\<newline>Success! PRD saved to '' @ filename) w2)))"

section \<open>main\<close>

text \<open>The body of the \<^verbatim>\<open>try\<close> statement of \<open>main\<close>.\<close>

definition main_try ::
  "ProductInterviewAgent \<Rightarrow> world \<Rightarrow> unit result \<times> ProductInterviewAgent \<times> world" where
  "main_try agent w =
     (case start_interview agent w of
        (Inl e, a1, w1) \<Rightarrow> (Inl e, a1, w1)
      | (Inr u, a1, w1) \<Rightarrow>
          (case generate_prd a1 w1 of
             (Inl e, a2, w2) \<Rightarrow> (Inl e, a2, w2)
           | (Inr prd_content, a2, w2) \<Rightarrow> save_prd a2 prd_content ''PRD.md'' w2))"

text \<open>
  \<open>main\<close> gives the exit status of the process and the world it leaves: status 0 when
  \<open>main\<close> returns, the argument of \<^verbatim>\<open>sys.exit\<close> otherwise.
\<close>

definition main :: "world \<Rightarrow> int \<times> world" where
  "main w =
     (case configure_genai w of
        (Inl status, w1) \<Rightarrow> (status, w1)
      | (Inr u, w1) \<Rightarrow>
          (case main_try (init ''gemini-1.5-flash-latest'') w1 of
             (Inr v, a, w2) \<Rightarrow> (0, w2)
           | (Inl KeyboardInterrupt, a, w2) \<Rightarrow>
               (0, print (Fore_RED @ ''\<newline>Process interrupted.'') w2)
           | (Inl (Exception m), a, w2) \<Rightarrow>
               (0, print (Fore_RED @ ''\<newline>An error occurred: '' @ m) w2)))"

section \<open>What the properties are stated with\<close>

text \<open>
  Every round of the loop sends exactly one message in the chat session, as its first
  action. The number of rounds begun is the number of messages of the session; when
  \<open>start_interview\<close> returns, every round begun has run to its end.
\<close>

definition rounds :: "ProductInterviewAgent \<Rightarrow> nat" where
  "rounds a = length (chat a)"

text \<open>The role labels of the entries of the history.\<close>

definition role_labelled :: "string \<Rightarrow> bool" where
  "role_labelled entry =
     (prefix ''System: '' entry \<or> prefix ''Agent: '' entry \<or> prefix ''User: '' entry)"

text \<open>
  The number of rounds that \<open>n\<close> iterations make on the given answers: one more
  than the number of answers before the first exit keyword, and at most \<open>n\<close>.
\<close>

definition loop_rounds :: "nat \<Rightarrow> string list \<Rightarrow> nat" where
  "loop_rounds n answers = min n (Suc (length (takeWhile (\<lambda>x. \<not> exit_requested x) answers)))"

text \<open>
  A world to run the program in: the credential is set, the remote service answers
  every request, the working directory is empty and writable.
\<close>

definition demo_world :: "string result list \<Rightarrow> world" where
  "demo_world lines =
     \<lparr>environ = (\<lambda>name. if name = ''GOOGLE_API_KEY'' then Some ''secret'' else None),
      stdin = lines,
      stdout = [],
      chat_service = (\<lambda>sent. Inr ''Why?''),
      generate_service = (\<lambda>prompt. Inr ''# PRD''),
      network = [],
      open_fault = (\<lambda>filename. None),
      write_fault = (\<lambda>filename content. None),
      files = (\<lambda>filename. None),
      api_key = None\<rparr>"


text \<open>A chat service that fails on the second message of a session.\<close>

definition failing_chat :: "string list \<Rightarrow> string result" where
  "failing_chat sent =
     (if length sent = 2 then Inl (Exception ''503 Service Unavailable'') else Inr ''Why?'')"


text \<open>The parts of the template of \<open>prd_prompt\<close>.\<close>

definition prd_header :: string where
  "prd_header =
     ''Based on the following interview transcript, write a comprehensive '' @
     ''Product Requirements Document (PRD) in Markdown format.\<newline>\<newline>'' @
     ''TRANSCRIPT:\<newline>''"

definition required_sections :: "string list" where
  "required_sections =
     [''Title & Overview'',
      ''Problem Statement (Root Cause Analysis)'',
      ''Goals & Success Metrics'',
      ''User Personas'',
      ''User Stories'',
      ''Functional Requirements'',
      ''Non-functional Requirements'',
      ''Output strictly in Markdown.'']"

definition numbered :: "string list \<Rightarrow> string list" where
  "numbered xs = map (\<lambda>(i, x). str_nat (Suc i) @ ''. '' @ x) (enumerate 0 xs)"


section \<open>The interview loop\<close>

lemmas world_ops = print_def input_def send_message_def append_history_def Let_def

lemma loop_chat_prefix:
  "interview_loop is u a w = (r, a', w') \<Longrightarrow> prefix (chat a) (chat a')"
proof (induction "is" arbitrary: u a w)
  case Nil
  then show ?case by simp
next
  case (Cons i "is")
  then show ?case
    by (auto simp: world_ops split: sum.splits list.splits prod.splits if_splits
        dest!: Cons.IH dest: append_prefixD)
qed

lemma loop_frame:
  "interview_loop is u a w = (r, a', w') \<Longrightarrow>
     chat_service w' = chat_service w \<and> generate_service w' = generate_service w \<and>
     open_fault w' = open_fault w \<and> write_fault w' = write_fault w \<and>
     files w' = files w \<and> environ w' = environ w \<and> api_key w' = api_key w \<and> model a' = model a"
proof (induction "is" arbitrary: u a w)
  case Nil
  then show ?case by simp
next
  case (Cons i "is")
  then show ?case
    by (auto simp: world_ops split: sum.splits list.splits prod.splits if_splits dest!: Cons.IH)
qed

lemma loop_length:
  "interview_loop is u a w = (Inr (), a', w') \<Longrightarrow>
     length (conversation_history a') + 2 * length (chat a) =
       length (conversation_history a) + 2 * length (chat a') \<and>
     length (chat a') \<le> length (chat a) + length is"
proof (induction "is" arbitrary: u a w)
  case Nil
  then show ?case by simp
next
  case (Cons i "is")
  then show ?case
    by (auto simp: world_ops split: sum.splits list.splits prod.splits if_splits dest!: Cons.IH)
qed

lemma role_labelled_entries [simp]:
  "role_labelled (system_entry s)" "role_labelled (agent_entry s)" "role_labelled (user_entry s)"
  by (simp_all add: role_labelled_def system_entry_def agent_entry_def user_entry_def)

lemma loop_history:
  "interview_loop is u a w = (r, a', w') \<Longrightarrow>
     \<exists>new. conversation_history a' = conversation_history a @ new \<and>
           (\<forall>x \<in> set new. role_labelled x)"
proof (induction "is" arbitrary: u a w)
  case Nil
  then show ?case by simp
next
  case (Cons i "is")
  then show ?case
    by (fastforce simp: world_ops split: sum.splits list.splits prod.splits if_splits dest!: Cons.IH)
qed

lemma loop_network:
  "interview_loop is u a w = (r, a', w') \<Longrightarrow>
     network w' = network w @ map SendMessage (drop (length (chat a)) (chat a'))"
proof (induction "is" arbitrary: u a w)
  case Nil
  then show ?case by simp
next
  case (Cons i "is")
  show ?case
  proof (cases "chat_service w (chat a @ [why_prompt u])")
    case (Inl e)
    with Cons.prems show ?thesis by (auto simp: world_ops)
  next
    case (Inr t)
    show ?thesis
    proof (cases "stdin w")
      case Nil
      with Inr Cons.prems show ?thesis by (auto simp: world_ops)
    next
      case (Cons x xs)
      show ?thesis
      proof (cases x)
        case (Inl e)
        with Inr Cons Cons.prems show ?thesis by (auto simp: world_ops)
      next
        case answer: (Inr y)
        show ?thesis
        proof (cases "exit_requested y")
          case True
          with Inr Cons answer Cons.prems show ?thesis by (auto simp: world_ops)
        next
          case False
          let ?a3 = "append_history (user_entry y) (append_history (agent_entry (strip t)) (a\<lparr>chat := chat a @ [why_prompt u]\<rparr>))"
          let ?w3 = "(print you_prompt (print (agent_line i (strip t)) (w\<lparr>network := network w @ [SendMessage (why_prompt u)]\<rparr>)))\<lparr>stdin := xs\<rparr>"
          from False Inr Cons answer Cons.prems
          have step: "interview_loop is y ?a3 ?w3 = (r, a', w')"
            by (auto simp: world_ops)
          from Cons.IH [OF step] have n: "network w' = network ?w3 @ map SendMessage (drop (length (chat ?a3)) (chat a'))" .
          from loop_chat_prefix [OF step] obtain rest where rest: "chat a' = (chat a @ [why_prompt u]) @ rest"
            by (auto simp: world_ops prefix_def)
          show ?thesis using n rest by (simp add: world_ops)
        qed
      qed
    qed
  qed
qed


lemma loop_fail:
  "interview_loop is u a w = (r, a', w') \<Longrightarrow> length (chat a) < k \<Longrightarrow> k \<le> length (chat a') \<Longrightarrow>
     chat_service w (take k (chat a')) = Inl e \<Longrightarrow> r = Inl e \<and> k = length (chat a')"
proof (induction "is" arbitrary: u a w)
  case Nil
  then show ?case by simp
next
  case (Cons i "is")
  let ?sent = "chat a @ [why_prompt u]"
  from loop_chat_prefix [OF Cons.prems(1)] obtain more where more: "chat a' = chat a @ more"
    by (auto simp: prefix_def)
  show ?case
  proof (cases "chat_service w ?sent")
    case (Inl e0)
    with Cons.prems show ?thesis by (auto simp: world_ops)
  next
    case (Inr t)
    show ?thesis
    proof (cases "stdin w")
      case Nil
      with Inr Cons.prems show ?thesis by (auto simp: world_ops)
    next
      case (Cons x xs)
      show ?thesis
      proof (cases x)
        case (Inl e0)
        with Inr Cons Cons.prems show ?thesis by (auto simp: world_ops)
      next
        case answer: (Inr y)
        show ?thesis
        proof (cases "exit_requested y")
          case True
          with Inr Cons answer Cons.prems show ?thesis by (auto simp: world_ops)
        next
          case False
          let ?a3 = "append_history (user_entry y)
                       (append_history (agent_entry (strip t)) (a\<lparr>chat := ?sent\<rparr>))"
          let ?w3 = "(print you_prompt (print (agent_line i (strip t))
                       (w\<lparr>network := network w @ [SendMessage (why_prompt u)]\<rparr>)))\<lparr>stdin := xs\<rparr>"
          from False Inr Cons answer Cons.prems(1)
          have step: "interview_loop is y ?a3 ?w3 = (r, a', w')"
            by (auto simp: world_ops)
          from loop_chat_prefix [OF step] obtain rest where rest: "chat a' = ?sent @ rest"
            by (auto simp: world_ops prefix_def)
          have k: "k \<noteq> length ?sent"
          proof
            assume "k = length ?sent"
            with rest have "take k (chat a') = ?sent" by simp
            with Cons.prems(4) Inr show False by simp
          qed
          with Cons.prems(2) have "length (chat ?a3) < k" by (simp add: world_ops)
          moreover have "chat_service ?w3 (take k (chat a')) = Inl e"
            using Cons.prems(4) by (simp add: world_ops)
          ultimately show ?thesis using Cons.IH [OF step] Cons.prems(3) by blast
        qed
      qed
    qed
  qed
qed

lemma loop_total:
  assumes "\<forall>sent. \<exists>t. chat_service w sent = Inr t"
    and "stdin w = map Inr answers @ rest"
    and "length is \<le> length answers \<or> (\<exists>x \<in> set answers. exit_requested x)"
  shows "\<exists>a' w'. interview_loop is u a w = (Inr (), a', w') \<and>
           length (chat a') = length (chat a) + loop_rounds (length is) answers \<and>
           stdin w' = map Inr (drop (loop_rounds (length is) answers) answers) @ rest"
  using assms
proof (induction "is" arbitrary: u a w answers)
  case Nil
  then show ?case by (simp add: loop_rounds_def)
next
  case (Cons i "is")
  from Cons.prems(3) obtain y ys where answers: "answers = y # ys"
    by (cases answers) auto
  from Cons.prems(1) obtain t where t: "chat_service w (chat a @ [why_prompt u]) = Inr t"
    by blast
  show ?case
  proof (cases "exit_requested y")
    case True
    with t answers Cons.prems(2) show ?thesis
      by (simp add: world_ops loop_rounds_def)
  next
    case False
    let ?a3 = "append_history (user_entry y)
                 (append_history (agent_entry (strip t)) (a\<lparr>chat := chat a @ [why_prompt u]\<rparr>))"
    let ?w3 = "(print you_prompt (print (agent_line i (strip t))
                 (w\<lparr>network := network w @ [SendMessage (why_prompt u)]\<rparr>)))\<lparr>stdin := map Inr ys @ rest\<rparr>"
    have unfold: "interview_loop (i # is) u a w = interview_loop is y ?a3 ?w3"
      using False t answers Cons.prems(2) by (simp add: world_ops)
    have 1: "\<forall>sent. \<exists>t. chat_service ?w3 sent = Inr t"
      using Cons.prems(1) by (simp add: world_ops)
    have 2: "stdin ?w3 = map Inr ys @ rest" by simp
    have 3: "length is \<le> length ys \<or> (\<exists>x \<in> set ys. exit_requested x)"
      using Cons.prems(3) answers False by auto
    from Cons.IH [OF 1 2 3, of y ?a3] obtain a' w' where
      r: "interview_loop is y ?a3 ?w3 = (Inr (), a', w')"
      and n: "length (chat a') = length (chat ?a3) + loop_rounds (length is) ys"
      and s: "stdin w' = map Inr (drop (loop_rounds (length is) ys) ys) @ rest"
      by blast
    have rounds: "loop_rounds (length (i # is)) answers = Suc (loop_rounds (length is) ys)"
      using False answers by (simp add: loop_rounds_def)
    show ?thesis
      using r n s unfold rounds answers by (simp add: world_ops)
  qed
qed

lemma range_5: "[0..<5] = [0, 1, 2, 3, 4]"
  by (simp add: upt_rec)

lemma start_interview_cases:
  assumes "start_interview a w = (r, a', w')"
  obtains (no_input) e where "r = Inl e" "chat a' = chat a"
      "conversation_history a' =
         conversation_history a @ [system_entry system_instruction, agent_entry initial_question]"
      "network w' = network w" "chat_service w' = chat_service w"
      "generate_service w' = generate_service w" "open_fault w' = open_fault w"
      "write_fault w' = write_fault w" "files w' = files w"
      "stdin w = [] \<or> (\<exists>e rest. stdin w = Inl e # rest)"
      "stdout w' \<noteq> []" "last (stdout w') = you_prompt"
    | (loop) u a0 w0 where
      "interview_loop [0..<5] u a0 w0 = (r, a', w')" "chat a0 = chat a"
      "conversation_history a0 =
         conversation_history a @
           [system_entry system_instruction, agent_entry initial_question, user_entry u]"
      "network w0 = network w" "chat_service w0 = chat_service w"
      "generate_service w0 = generate_service w" "open_fault w0 = open_fault w"
      "write_fault w0 = write_fault w" "files w0 = files w"
      "\<exists>rest. stdin w = Inr u # rest"
proof (cases "stdin w")
  case Nil
  with assms show ?thesis
    by (intro no_input) (auto simp: start_interview_def world_ops)
next
  case (Cons x xs)
  show ?thesis
  proof (cases x)
    case (Inl e)
    with Cons assms show ?thesis
      by (intro no_input) (auto simp: start_interview_def world_ops)
  next
    case (Inr u)
    let ?a0 = "append_history (user_entry u)
                 (append_history (agent_entry initial_question)
                    (append_history (system_entry system_instruction) a))"
    let ?w0 = "(print you_prompt
                 (print (Fore_BLUE @ ''Agent: '' @ Style_RESET_ALL @ initial_question)
                    (print ''I'll ask you a few questions to understand the root problem better.\<newline>''
                       (print (Fore_GREEN @ ''Hello! I'm here to help you define your product requirements.'')
                          (print (Fore_CYAN @ ''\<newline>=== Gemini Product Manager Agent ==='') w)))))
               \<lparr>stdin := xs\<rparr>"
    have "start_interview a w = interview_loop [0..<5] u ?a0 ?w0"
      using Cons Inr by (simp add: start_interview_def input_def Let_def print_def)
    with assms have "interview_loop [0..<5] u ?a0 ?w0 = (r, a', w')"
      by simp
    then show ?thesis
      by (rule loop) (simp_all add: world_ops Cons Inr)
  qed
qed


lemma length_takeWhile_le_index:
  assumes "j < length xs" and "\<not> P (xs ! j)"
  shows "length (takeWhile P xs) \<le> j"
proof (rule ccontr)
  assume "\<not> length (takeWhile P xs) \<le> j"
  then have j: "j < length (takeWhile P xs)" by simp
  then have "takeWhile P xs ! j = xs ! j" by (rule takeWhile_nth)
  moreover from j have "takeWhile P xs ! j \<in> set (takeWhile P xs)" by (rule nth_mem)
  ultimately have "P (xs ! j)" by (auto dest: set_takeWhileD)
  with assms(2) show False by simp
qed

lemma loop_rounds_exit:
  assumes "\<exists>x \<in> set (take n answers). exit_requested x"
  shows "loop_rounds n answers = Suc (length (takeWhile (\<lambda>x. \<not> exit_requested x) answers))"
proof -
  from assms obtain j where j: "j < length (take n answers)" "exit_requested (take n answers ! j)"
    by (auto simp: in_set_conv_nth)
  then have "j < n" "j < length answers" "\<not> \<not> exit_requested (answers ! j)"
    by auto
  from length_takeWhile_le_index [of j answers "\<lambda>x. \<not> exit_requested x", OF this(2,3)] \<open>j < n\<close>
  show ?thesis by (simp add: loop_rounds_def)
qed

lemma loop_rounds_full:
  assumes "\<not> (\<exists>x \<in> set (take n answers). exit_requested x)" and "n \<le> length answers"
  shows "loop_rounds n answers = n"
proof -
  have "takeWhile (\<lambda>x. \<not> exit_requested x) (take n answers @ drop n answers) =
          take n answers @ takeWhile (\<lambda>x. \<not> exit_requested x) (drop n answers)"
    using assms(1) by (intro takeWhile_append2) auto
  then have "n \<le> length (takeWhile (\<lambda>x. \<not> exit_requested x) answers)"
    using assms(2) by simp
  then show ?thesis by (simp add: loop_rounds_def)
qed


lemma loop_chat_first:
  assumes "interview_loop (i # is) u a w = (r, a', w')"
  shows "prefix (chat a @ [why_prompt u]) (chat a')"
proof (cases "chat_service w (chat a @ [why_prompt u])")
  case (Inl e)
  with assms show ?thesis by (auto simp: world_ops)
next
  case (Inr t)
  show ?thesis
  proof (cases "stdin w")
    case Nil
    with Inr assms show ?thesis by (auto simp: world_ops)
  next
    case (Cons x xs)
    show ?thesis
    proof (cases x)
      case (Inl e)
      with Inr Cons assms show ?thesis by (auto simp: world_ops)
    next
      case answer: (Inr y)
      show ?thesis
      proof (cases "exit_requested y")
        case True
        with Inr Cons answer assms show ?thesis by (auto simp: world_ops)
      next
        case False
        with Inr Cons answer assms show ?thesis
          by (auto simp: world_ops dest!: loop_chat_prefix)
      qed
    qed
  qed
qed

lemma lower_char_isspace: "isspace c \<Longrightarrow> lower_char c = c"
  by (auto simp: isspace_def) (simp_all add: lower_char_def)

lemma exit_requested_iff:
  "exit_requested u \<longleftrightarrow> lower u = ''exit'' \<or> lower u = ''quit'' \<or> lower u = ''done''"
  by (auto simp: exit_requested_def exit_keywords_def)

lemma isspace_not_letter:
  "isspace c \<Longrightarrow> c \<noteq> CHR ''e'' \<and> c \<noteq> CHR ''q'' \<and> c \<noteq> CHR ''d'' \<and> c \<noteq> CHR ''t''"
  by (auto simp: isspace_def)

lemma not_exit_leading_space:
  assumes "isspace c"
  shows "\<not> exit_requested (c # u)"
  using isspace_not_letter [OF assms] lower_char_isspace [OF assms]
  by (simp add: exit_requested_iff lower_def)

lemma not_exit_trailing_space:
  assumes "isspace c"
  shows "\<not> exit_requested (u @ [c])"
proof
  assume "exit_requested (u @ [c])"
  then have "lower u @ [c] = ''exit'' \<or> lower u @ [c] = ''quit'' \<or> lower u @ [c] = ''done''"
    using lower_char_isspace [OF assms] by (simp add: exit_requested_iff lower_def)
  then have "last (lower u @ [c]) = last ''exit'' \<or> last (lower u @ [c]) = last ''quit'' \<or>
             last (lower u @ [c]) = last ''done''"
    by presburger
  then have "c = CHR ''t'' \<or> c = CHR ''e''"
    by simp
  with isspace_not_letter [OF assms] show False by simp
qed


lemmas run_simps = start_interview_def world_ops range_5 demo_world_def init_def
  exit_requested_def exit_keywords_def lower_def lower_char_def


section \<open>Properties\<close>

text \<open>
  C1. When \<open>start_interview\<close> returns on a new agent after \<open>n\<close> rounds, at most
  five, the history has \<open>2 * n + 3\<close> entries: the system instruction, the first
  question and its answer, and a question and an answer for each round.
\<close>

theorem history_length_on_return:
  assumes "start_interview (init model_name) w = (Inr (), a', w')"
  shows "rounds a' \<le> 5 \<and> length (conversation_history a') = 2 * rounds a' + 3"
  using assms
proof (cases rule: start_interview_cases)
  case (no_input e)
  then show ?thesis by simp
next
  case (loop u a0 w0)
  from loop_length [OF loop(1)] loop(2,3) show ?thesis
    by (simp add: rounds_def init_def)
qed

theorem history_length_on_return_witness:
  "fst (start_interview (init ''gemini-1.5-flash-latest'')
          (demo_world [Inr ''a budgeting app'', Inr ''to save money'', Inr ''Done''])) = Inr () \<and>
   rounds (fst (snd (start_interview (init ''gemini-1.5-flash-latest'')
          (demo_world [Inr ''a budgeting app'', Inr ''to save money'', Inr ''Done''])))) = 2 \<and>
   length (conversation_history (fst (snd (start_interview (init ''gemini-1.5-flash-latest'')
          (demo_world [Inr ''a budgeting app'', Inr ''to save money'', Inr ''Done'']))))) = 2 * 2 + 3"
proof -
  let ?run = "start_interview (init ''gemini-1.5-flash-latest'')
          (demo_world [Inr ''a budgeting app'', Inr ''to save money'', Inr ''Done''])"
  have r: "fst ?run = Inr ()" and n: "rounds (fst (snd ?run)) = 2"
    by (simp_all add: run_simps rounds_def)
  then have "?run = (Inr (), fst (snd ?run), snd (snd ?run))"
    by (metis prod.collapse)
  from history_length_on_return [OF this] r n show ?thesis
    by simp
qed

text \<open>
  C2. When the remote service answers every request and the user gives an answer
  whenever asked, the loop makes five rounds, unless an answer given inside it is
  \<^verbatim>\<open>exit\<close>, \<^verbatim>\<open>quit\<close> or \<^verbatim>\<open>done\<close> in any case: the round of the first such answer is
  then the last one, and the input after it is left unread.
\<close>

theorem interview_rounds:
  assumes "\<forall>sent. \<exists>t. chat_service w sent = Inr t"
    and "stdin w = Inr u # map Inr answers @ rest"
    and "5 \<le> length answers \<or> (\<exists>x \<in> set answers. exit_requested x)"
  shows "\<exists>a' w'. start_interview a w = (Inr (), a', w') \<and>
           rounds a' = rounds a + loop_rounds 5 answers \<and>
           stdin w' = map Inr (drop (loop_rounds 5 answers) answers) @ rest \<and>
           loop_rounds 5 answers =
             (if \<exists>x \<in> set (take 5 answers). exit_requested x
              then Suc (length (takeWhile (\<lambda>x. \<not> exit_requested x) answers))
              else 5)"
proof -
  let ?a0 = "append_history (user_entry u)
               (append_history (agent_entry initial_question)
                  (append_history (system_entry system_instruction) a))"
  let ?w0 = "(print you_prompt
               (print (Fore_BLUE @ ''Agent: '' @ Style_RESET_ALL @ initial_question)
                  (print ''I'll ask you a few questions to understand the root problem better.\<newline>''
                     (print (Fore_GREEN @ ''Hello! I'm here to help you define your product requirements.'')
                        (print (Fore_CYAN @ ''\<newline>=== Gemini Product Manager Agent ==='') w)))))
             \<lparr>stdin := map Inr answers @ rest\<rparr>"
  have start: "start_interview a w = interview_loop [0..<5] u ?a0 ?w0"
    using assms(2) by (simp add: start_interview_def input_def Let_def print_def)
  have 1: "\<forall>sent. \<exists>t. chat_service ?w0 sent = Inr t"
    using assms(1) by (simp add: print_def)
  have 2: "stdin ?w0 = map Inr answers @ rest"
    by simp
  have 3: "length [0..<5] \<le> length answers \<or> (\<exists>x \<in> set answers. exit_requested x)"
    using assms(3) by simp
  from loop_total [OF 1 2 3, of u ?a0] obtain a' w' where
    run: "interview_loop [0..<5] u ?a0 ?w0 = (Inr (), a', w')"
    and n: "length (chat a') = length (chat ?a0) + loop_rounds (length [0..<5]) answers"
    and s: "stdin w' = map Inr (drop (loop_rounds (length [0..<5]) answers) answers) @ rest"
    by blast
  have count: "loop_rounds 5 answers =
      (if \<exists>x \<in> set (take 5 answers). exit_requested x
       then Suc (length (takeWhile (\<lambda>x. \<not> exit_requested x) answers))
       else 5)"
  proof (cases "\<exists>x \<in> set (take 5 answers). exit_requested x")
    case True
    then show ?thesis by (simp add: loop_rounds_exit)
  next
    case False
    have "5 \<le> length answers"
    proof (rule ccontr)
      assume "\<not> 5 \<le> length answers"
      then have "take 5 answers = answers" by simp
      with False assms(3) \<open>\<not> 5 \<le> length answers\<close> show False by simp
    qed
    with False show ?thesis by (simp add: loop_rounds_full)
  qed
  show ?thesis
    using start run n s count by (simp add: rounds_def world_ops)
qed


theorem interview_rounds_witness:
  "(\<forall>sent. \<exists>t. chat_service (demo_world [Inr ''a budgeting app'', Inr ''to save money'',
        Inr ''QUIT'', Inr ''never read'']) sent = Inr t) \<and>
   stdin (demo_world [Inr ''a budgeting app'', Inr ''to save money'', Inr ''QUIT'',
        Inr ''never read'']) =
     Inr ''a budgeting app'' # map Inr [''to save money'', ''QUIT'', ''never read''] @ [] \<and>
   (5 \<le> length [''to save money'', ''QUIT'', ''never read''] \<or>
    (\<exists>x \<in> set [''to save money'', ''QUIT'', ''never read'']. exit_requested x)) \<and>
   (\<exists>a' w'. start_interview (init ''gemini-1.5-flash-latest'')
        (demo_world [Inr ''a budgeting app'', Inr ''to save money'', Inr ''QUIT'',
           Inr ''never read'']) = (Inr (), a', w') \<and>
      rounds a' = 2 \<and> stdin w' = [Inr ''never read''])"
proof -
  let ?w = "demo_world [Inr ''a budgeting app'', Inr ''to save money'', Inr ''QUIT'',
              Inr ''never read'']"
  let ?answers = "[''to save money'', ''QUIT'', ''never read'']"
  have 1: "\<forall>sent. \<exists>t. chat_service ?w sent = Inr t"
    by (simp add: demo_world_def)
  have 2: "stdin ?w = Inr ''a budgeting app'' # map Inr ?answers @ []"
    by (simp add: demo_world_def)
  have quit: "exit_requested ''QUIT''" and other: "\<not> exit_requested ''to save money''"
    by (simp_all add: exit_requested_def exit_keywords_def lower_def lower_char_def)
  then have 3: "5 \<le> length ?answers \<or> (\<exists>x \<in> set ?answers. exit_requested x)"
    by simp
  have n: "loop_rounds 5 ?answers = 2"
    using quit other by (simp add: loop_rounds_def)
  from interview_rounds [OF 1 2 3, of "init ''gemini-1.5-flash-latest''"] n
  have "\<exists>a' w'. start_interview (init ''gemini-1.5-flash-latest'') ?w = (Inr (), a', w') \<and>
      rounds a' = 2 \<and> stdin w' = [Inr ''never read'']"
    by (auto simp: rounds_def init_def)
  with 1 2 3 show ?thesis by blast
qed

text \<open>
  C7. A message of the interview that the remote service fails on is the last request
  of \<open>start_interview\<close>: it is not sent again, no further round begins, and
  \<open>start_interview\<close> ends with the exception the service raised.
\<close>

theorem generation_failure_propagates:
  assumes "start_interview a w = (r, a', w')"
    and "length (chat a) < k" and "k \<le> length (chat a')"
    and "chat_service w (take k (chat a')) = Inl e"
  shows "r = Inl e \<and> k = length (chat a') \<and>
         network w' = network w @ map SendMessage (drop (length (chat a)) (chat a'))"
  using assms(1)
proof (cases rule: start_interview_cases)
  case (no_input e0)
  with assms(2,3) show ?thesis by simp
next
  case (loop u a0 w0)
  from loop_fail [OF loop(1), of k e] loop(2,5) assms(2,3,4)
  have "r = Inl e \<and> k = length (chat a')" by simp
  moreover from loop_frame [OF loop(1)] loop_network [OF loop(1)] loop(2,4)
  have "network w' = network w @ map SendMessage (drop (length (chat a)) (chat a'))" by simp
  ultimately show ?thesis by simp
qed

theorem generation_failure_propagates_witness:
  "fst (start_interview (init ''gemini-1.5-flash-latest'')
     ((demo_world (map Inr [''an app'', ''one'', ''two'', ''three'', ''four'', ''five'']))
        \<lparr>chat_service := failing_chat\<rparr>)) = Inl (Exception ''503 Service Unavailable'') \<and>
   length (chat (fst (snd (start_interview (init ''gemini-1.5-flash-latest'')
     ((demo_world (map Inr [''an app'', ''one'', ''two'', ''three'', ''four'', ''five'']))
        \<lparr>chat_service := failing_chat\<rparr>))))) = 2 \<and>
   network (snd (snd (start_interview (init ''gemini-1.5-flash-latest'')
     ((demo_world (map Inr [''an app'', ''one'', ''two'', ''three'', ''four'', ''five'']))
        \<lparr>chat_service := failing_chat\<rparr>)))) =
     [SendMessage (why_prompt ''an app''), SendMessage (why_prompt ''one'')]"
proof -
  let ?a = "init ''gemini-1.5-flash-latest''"
  let ?w = "(demo_world (map Inr [''an app'', ''one'', ''two'', ''three'', ''four'', ''five'']))
              \<lparr>chat_service := failing_chat\<rparr>"
  let ?run = "start_interview ?a ?w"
  have sent: "chat (fst (snd ?run)) = [why_prompt ''an app'', why_prompt ''one'']"
    by (simp add: run_simps failing_chat_def)
  have run: "?run = (fst ?run, fst (snd ?run), snd (snd ?run))"
    by simp
  have 2: "length (chat ?a) < 2" by (simp add: init_def)
  have 3: "2 \<le> length (chat (fst (snd ?run)))" using sent by simp
  have 4: "chat_service ?w (take 2 (chat (fst (snd ?run)))) = Inl (Exception ''503 Service Unavailable'')"
    using sent by (simp add: failing_chat_def)
  from generation_failure_propagates [OF run 2 3 4] sent show ?thesis
    by (simp add: init_def demo_world_def)
qed

text \<open>
  C8. The history is append-only: \<open>start_interview\<close> leaves the entries it finds in
  place and adds entries that all start with \<^verbatim>\<open>System: \<close>, \<^verbatim>\<open>Agent: \<close> or
  \<^verbatim>\<open>User: \<close>; \<open>generate_prd\<close> and \<open>save_prd\<close> leave the history as it is.
\<close>

theorem history_append_only:
  "(\<exists>new. conversation_history (fst (snd (start_interview a w))) = conversation_history a @ new \<and>
          list_all role_labelled new) \<and>
   conversation_history (fst (snd (generate_prd a w))) = conversation_history a \<and>
   conversation_history (fst (snd (save_prd a content filename w))) = conversation_history a"
proof (intro conjI)
  obtain r a' w' where run: "start_interview a w = (r, a', w')"
    by (cases "start_interview a w") auto
  then have "\<exists>new. conversation_history a' = conversation_history a @ new \<and> list_all role_labelled new"
  proof (cases rule: start_interview_cases)
    case (no_input e)
    then show ?thesis by simp
  next
    case (loop u a0 w0)
    from loop_history [OF loop(1)] loop(3) show ?thesis
      by (auto simp: list_all_iff)
  qed
  with run show "\<exists>new. conversation_history (fst (snd (start_interview a w))) =
      conversation_history a @ new \<and> list_all role_labelled new"
    by simp
next
  show "conversation_history (fst (snd (generate_prd a w))) = conversation_history a"
    by (simp add: generate_prd_def Let_def split: prod.splits)
next
  show "conversation_history (fst (snd (save_prd a content filename w))) = conversation_history a"
    by (simp add: save_prd_def save_prd_except_def file_open_def file_write_def
        split: prod.splits sum.splits option.splits exn.splits)
qed

text \<open>
  C10. The answer to the first question is never compared with the exit keywords: it
  is recorded in the history and the first round asks about it, whatever it is. The
  comparison made inside the loop is an exact one on the lowercased answer, so an
  answer that begins or ends with white space is never an exit keyword.
\<close>

theorem initial_answer_is_not_checked:
  assumes "stdin w = Inr answer # rest"
  shows "(\<exists>more_history more_chat.
            conversation_history (fst (snd (start_interview a w))) =
              conversation_history a @
                [system_entry system_instruction, agent_entry initial_question, user_entry answer] @
                more_history \<and>
            chat (fst (snd (start_interview a w))) = chat a @ [why_prompt answer] @ more_chat) \<and>
         (exit_requested u \<longleftrightarrow> lower u \<in> {''exit'', ''quit'', ''done''}) \<and>
         (isspace c \<longrightarrow> \<not> exit_requested (c # u) \<and> \<not> exit_requested (u @ [c]))"
proof (intro conjI impI)
  obtain r a' w' where run: "start_interview a w = (r, a', w')"
    by (cases "start_interview a w") auto
  then have "\<exists>more_history more_chat.
      conversation_history a' =
        conversation_history a @
          [system_entry system_instruction, agent_entry initial_question, user_entry answer] @
          more_history \<and>
      chat a' = chat a @ [why_prompt answer] @ more_chat"
  proof (cases rule: start_interview_cases)
    case (no_input e)
    with assms show ?thesis by simp
  next
    case (loop u0 a0 w0)
    from loop(10) assms have u0: "u0 = answer" by auto
    from loop(1) have "interview_loop (0 # [1, 2, 3, 4]) u0 a0 w0 = (r, a', w')"
      by (simp add: range_5)
    from loop_chat_first [OF this] loop(2) u0
    obtain more_chat where "chat a' = chat a @ [why_prompt answer] @ more_chat"
      by (auto simp: prefix_def)
    moreover from loop_history [OF loop(1)] loop(3) u0
    obtain more_history where "conversation_history a' =
        conversation_history a @
          [system_entry system_instruction, agent_entry initial_question, user_entry answer] @
          more_history"
      by auto
    ultimately show ?thesis by blast
  qed
  with run show "\<exists>more_history more_chat.
      conversation_history (fst (snd (start_interview a w))) =
        conversation_history a @
          [system_entry system_instruction, agent_entry initial_question, user_entry answer] @
          more_history \<and>
      chat (fst (snd (start_interview a w))) = chat a @ [why_prompt answer] @ more_chat"
    by simp
next
  show "exit_requested u \<longleftrightarrow> lower u \<in> {''exit'', ''quit'', ''done''}"
    by (simp add: exit_requested_iff)
next
  assume "isspace c"
  then show "\<not> exit_requested (c # u)" by (rule not_exit_leading_space)
next
  assume "isspace c"
  then show "\<not> exit_requested (u @ [c])" by (rule not_exit_trailing_space)
qed

theorem initial_answer_is_not_checked_witness:
  "exit_requested ''EXIT'' \<and>
   stdin (demo_world [Inr ''EXIT'']) = Inr ''EXIT'' # [] \<and>
   hd (chat (fst (snd (start_interview (init ''gemini-1.5-flash-latest'')
        (demo_world [Inr ''EXIT'']))))) = why_prompt ''EXIT'' \<and>
   isspace CHR '' '' \<and> \<not> exit_requested (CHR '' '' # ''exit'') \<and>
   \<not> exit_requested (''exit'' @ [CHR '' ''])"
proof -
  have 1: "stdin (demo_world [Inr ''EXIT'']) = Inr ''EXIT'' # []"
    by (simp add: demo_world_def)
  have 2: "isspace CHR '' ''"
    by (simp add: isspace_def)
  have 3: "exit_requested ''EXIT''"
    by (simp add: exit_requested_def exit_keywords_def lower_def lower_char_def)
  from initial_answer_is_not_checked
         [OF 1, of "init ''gemini-1.5-flash-latest''" "''exit''" "CHR '' ''"] 1 2 3
  show ?thesis
    by (auto simp: init_def)
qed

end
